theory Spec2Isabelle
  imports Complex_Main
begin

text \<open>
  The repository is one notebook of ten code cells, run from top to bottom: it loads the
  Iris data, splits it into three partitions, writes two of them as CSV files and uploads
  them, builds the two configuration records of a hyperparameter tuning job and submits
  the job.  Each cell is a definition below, under the name of the variable it binds.  The
  calls into numpy, pandas, scikit-learn and the cloud SDK are modelled by what they are
  documented to do; what only exists at run time (the data set, the random generator, the
  text of a float, the bucket, role, region and image) is a parameter.
\<close>

section \<open>Python floats\<close>

text \<open>
  The notebook passes the float literals \<open>0.2\<close> and \<open>0.5\<close> to the splitter, which
  multiplies them by a row count and takes the ceiling.  A Python float is an IEEE-754
  binary64 number.  It is modelled by the rational number it denotes; a literal and every
  arithmetic operation round to the nearest number with a 53-bit significand, ties to the
  even significand.  The exponent range is not modelled, except for the overflow of an
  integer that is converted to a float.
\<close>

type_synonym float64 = rat

text \<open>\<open>int.bit_length\<close>: the number of binary digits of a positive integer.\<close>

function bit_length :: "int \<Rightarrow> nat" where
  "bit_length n = (if n \<le> 0 then 0 else Suc (bit_length (n div 2)))"
  by pat_completeness auto
termination
  by (relation "measure nat") auto

declare bit_length.simps [simp del]

definition pow2 :: "int \<Rightarrow> rat" where
  "pow2 k = (if 0 \<le> k then 2 ^ nat k else 1 / 2 ^ nat (- k))"

definition round_half_even :: "rat \<Rightarrow> int" where
  "round_half_even x =
     (let f = \<lfloor>x\<rfloor>; d = x - of_int f in
      if d < 1 / 2 then f
      else if 1 / 2 < d then f + 1
      else if even f then f else f + 1)"

definition round_binary64 :: "rat \<Rightarrow> float64" where
  "round_binary64 x =
     (if x = 0 then 0
      else
        let a = \<bar>x\<bar>;
            p = fst (quotient_of a);
            q = snd (quotient_of a);
            s0 = int (bit_length p) - int (bit_length q) - 53;
            s = (if pow2 53 \<le> a / pow2 s0 then s0 + 1 else s0);
            m = round_half_even (a / pow2 s)
        in sgn x * of_int m * pow2 s)"

text \<open>A float literal \<open>d\<close> of the source text denotes the binary64 number nearest to \<open>d\<close>.\<close>

definition float_literal :: "rat \<Rightarrow> float64" where
  "float_literal d = round_binary64 d"

text \<open>\<open>x * y\<close> on two floats.\<close>

definition float_mul :: "float64 \<Rightarrow> float64 \<Rightarrow> float64" where
  "float_mul x y = round_binary64 (x * y)"

datatype error = ValueError | IndexError | OverflowError | FileNotFoundError

text \<open>
  \<open>float(n)\<close> for a Python integer, also the implicit conversion in \<open>x * n\<close>:
  rounded to nearest, \<open>OverflowError\<close> when the result is beyond the largest float.
\<close>

definition float_of_int :: "int \<Rightarrow> error + float64" where
  "float_of_int n =
     (let r = round_binary64 (of_int n) in
      if pow2 1024 \<le> \<bar>r\<bar> then Inl OverflowError else Inr r)"

text \<open>\<open>math.ceil\<close>.\<close>

definition ceil :: "float64 \<Rightarrow> int" where
  "ceil x = \<lceil>x\<rceil>"

section \<open>Data frames\<close>

text \<open>
  A pandas data frame: the column names and the rows, each row with its index label.
  Selecting rows keeps their labels, so a row of a partition is identified with the row of
  the frame it was taken from.
\<close>

record 'v frame =
  columns :: "string list"
  body :: "(nat \<times> 'v list) list"

text \<open>
  \<open>pd.DataFrame(data=M, columns=cols)\<close> on a two-dimensional array: the rows are labelled
  \<open>0, 1, ...\<close>; the number of names must be the width of the array.
\<close>

definition DataFrame :: "'v list list \<Rightarrow> string list \<Rightarrow> error + 'v frame" where
  "DataFrame M cols =
     (if list_all (\<lambda>r. length r = length cols) M
      then Inr \<lparr>columns = cols, body = zip [0..<length M] M\<rparr>
      else Inl ValueError)"

text \<open>\<open>df.iloc[indices]\<close>: the rows at the given positions, in the given order.\<close>

definition iloc :: "'v frame \<Rightarrow> nat list \<Rightarrow> error + 'v frame" where
  "iloc df indices =
     (if list_all (\<lambda>i. i < length (body df)) indices
      then Inr (df\<lparr>body := map (\<lambda>i. body df ! i) indices\<rparr>)
      else Inl IndexError)"

text \<open>
  \<open>np.c_[A, t]\<close> for a two-dimensional float array \<open>A\<close> and a one-dimensional integer
  array \<open>t\<close>: \<open>t\<close> becomes the last column, converted to the float type of \<open>A\<close>.
\<close>

definition np_c :: "float64 list list \<Rightarrow> int list \<Rightarrow> error + float64 list list" where
  "np_c A t =
     (if length A = length t
      then Inr (map2 (\<lambda>r x. r @ [round_binary64 (of_int x)]) A t)
      else Inl ValueError)"

section \<open>The splitter\<close>

text \<open>
  \<open>train_test_split\<close> is a call into scikit-learn and the shuffle a call into numpy.  The
  generator is a parameter: \<open>RandomState seed\<close> is a new generator seeded with
  \<open>seed\<close>, \<open>permutation g n\<close> the shuffled \<open>range(n)\<close> drawn from the generator
  \<open>g\<close> together with the advanced generator.  The state \<open>g\<close> threaded through the calls
  is numpy's global generator, which is used when no seed is given.
\<close>

record 'g numpy_random =
  RandomState :: "int \<Rightarrow> 'g"
  permutation :: "'g \<Rightarrow> nat \<Rightarrow> nat list \<times> 'g"

datatype size_arg = Float_size float64 | Int_size int

text \<open>
  The sizes of the two parts.  A float \<open>test_size\<close> is a fraction of the rows, rounded
  up; an integer is a number of rows.  Without a \<open>train_size\<close> the train part is the rest.
\<close>

definition validate_shuffle_split ::
    "nat \<Rightarrow> size_arg \<Rightarrow> int option \<Rightarrow> error + (int \<times> int)" where
  "validate_shuffle_split n_samples test_size train_size =
     (if (case test_size of
            Int_size k \<Rightarrow> int n_samples \<le> k \<or> k \<le> 0
          | Float_size x \<Rightarrow> x \<le> 0 \<or> 1 \<le> x)
      then Inl ValueError
      else if (case train_size of
                 None \<Rightarrow> False
               | Some k \<Rightarrow> int n_samples \<le> k \<or> k \<le> 0)
      then Inl ValueError
      else
        case (case test_size of
                Int_size k \<Rightarrow> Inr k
              | Float_size x \<Rightarrow>
                  (case float_of_int (int n_samples) of
                     Inl e \<Rightarrow> Inl e
                   | Inr n \<Rightarrow> Inr (ceil (float_mul x n)))) of
          Inl e \<Rightarrow> Inl e
        | Inr n_test \<Rightarrow>
            let n_train = (case train_size of
                             None \<Rightarrow> int n_samples - n_test
                           | Some k \<Rightarrow> k)
            in if int n_samples < n_train + n_test then Inl ValueError
               else if n_train = 0 then Inl ValueError
               else Inr (n_train, n_test))"

text \<open>
  \<open>check_random_state(random_state).permutation(n)\<close>: an integer seed makes a new
  generator and leaves the global one alone; \<open>None\<close> draws from the global one.
\<close>

definition draw_permutation ::
    "'g numpy_random \<Rightarrow> int option \<Rightarrow> 'g \<Rightarrow> nat \<Rightarrow> error + (nat list \<times> 'g)" where
  "draw_permutation np random_state g n =
     (case random_state of
        None \<Rightarrow> Inr (permutation np g n)
      | Some seed \<Rightarrow>
          if seed < 0 \<or> 2 ^ 32 \<le> seed then Inl ValueError
          else Inr (fst (permutation np (RandomState np seed) n), g))"

text \<open>
  \<open>ShuffleSplit(test_size=n_test, train_size=n_train, random_state=...)\<close>, first split:
  the integer sizes are checked again, the test indices are the first \<open>n_test\<close> entries
  of the permutation and the train indices the next \<open>n_train\<close>.
\<close>

definition ShuffleSplit ::
    "'g numpy_random \<Rightarrow> nat \<Rightarrow> int \<Rightarrow> int \<Rightarrow> int option \<Rightarrow> 'g
      \<Rightarrow> error + ((nat list \<times> nat list) \<times> 'g)" where
  "ShuffleSplit np n_samples n_test n_train random_state g =
     (case validate_shuffle_split n_samples (Int_size n_test) (Some n_train) of
        Inl e \<Rightarrow> Inl e
      | Inr (n_train', n_test') \<Rightarrow>
          (case draw_permutation np random_state g n_samples of
             Inl e \<Rightarrow> Inl e
           | Inr (perm, g') \<Rightarrow>
               let ind_test = take (nat n_test') perm;
                   ind_train = drop (nat n_test') (take (nat (n_test' + n_train')) perm)
               in Inr ((ind_train, ind_test), g')))"

text \<open>\<open>train_test_split(df, test_size=..., random_state=...)\<close>: the pair (train, test).\<close>

definition train_test_split ::
    "'g numpy_random \<Rightarrow> 'v frame \<Rightarrow> float64 \<Rightarrow> int option \<Rightarrow> 'g
      \<Rightarrow> error + (('v frame \<times> 'v frame) \<times> 'g)" where
  "train_test_split np df test_size random_state g =
     (let n_samples = length (body df) in
      case validate_shuffle_split n_samples (Float_size test_size) None of
        Inl e \<Rightarrow> Inl e
      | Inr (n_train, n_test) \<Rightarrow>
          (case ShuffleSplit np n_samples n_test n_train random_state g of
             Inl e \<Rightarrow> Inl e
           | Inr ((train, test), g') \<Rightarrow>
               (case iloc df train of
                  Inl e \<Rightarrow> Inl e
                | Inr df_train \<Rightarrow>
                    (case iloc df test of
                       Inl e \<Rightarrow> Inl e
                     | Inr df_test \<Rightarrow> Inr ((df_train, df_test), g')))))"

section \<open>The notebook\<close>

text \<open>
  Cell 4.  The first call holds out the fraction \<open>0.2\<close>; the second halves what was held
  out into the validation part (its train side) and the test part.  The result is
  \<open>(train_data, validation_data, test_data)\<close>.
\<close>

definition split_data ::
    "'g numpy_random \<Rightarrow> 'v frame \<Rightarrow> 'g
      \<Rightarrow> error + (('v frame \<times> 'v frame \<times> 'v frame) \<times> 'g)" where
  "split_data np df g =
     (case train_test_split np df (float_literal (2 / 10)) (Some 42) g of
        Inl e \<Rightarrow> Inl e
      | Inr ((train_data, test_data), g1) \<Rightarrow>
          (case train_test_split np test_data (float_literal (5 / 10)) (Some 42) g1 of
             Inl e \<Rightarrow> Inl e
           | Inr ((validation_data, test_data'), g2) \<Rightarrow>
               Inr ((train_data, validation_data, test_data'), g2)))"

text \<open>
  Cell 2.  The region, the execution role and the default bucket are whatever the cloud
  session reports at run time; \<open>image_uris_retrieve\<close> stands for the lookup
  \<open>sagemaker.image_uris.retrieve\<close>.  All four are parameters of the notebook.
\<close>

record environment =
  region :: string
  role :: string
  bucket :: string
  image_uris_retrieve :: "string \<Rightarrow> string \<Rightarrow> string \<Rightarrow> string"

definition prefix :: string where
  "prefix = ''DEMO-iris-hpo-xgboost''"

text \<open>
  Cell 3.  \<open>load_iris()\<close> is a parameter: the feature matrix, the integer class labels and
  the feature names.
\<close>

record bunch =
  bunch_data :: "float64 list list"
  bunch_target :: "int list"
  bunch_feature_names :: "string list"

definition data :: "bunch \<Rightarrow> error + float64 frame" where
  "data iris =
     (case np_c (bunch_data iris) (bunch_target iris) of
        Inl e \<Rightarrow> Inl e
      | Inr M \<Rightarrow> DataFrame M (bunch_feature_names iris @ [''target'']))"

text \<open>
  Cell 5.  The local files and the objects of the remote store, the latter by bucket and
  key.
\<close>

record world =
  files :: "string \<rightharpoonup> string"
  objects :: "string \<times> string \<rightharpoonup> string"

text \<open>\<open>sep.join(cells)\<close>.\<close>

fun join :: "string \<Rightarrow> string list \<Rightarrow> string" where
  "join sep [] = []"
| "join sep [x] = x"
| "join sep (x # y # ys) = x @ sep @ join sep (y # ys)"

definition csv_line :: "string list \<Rightarrow> string" where
  "csv_line cells = join '','' cells @ [CHR 0x0A]"

text \<open>\<open>str(n)\<close> for an index label.\<close>

fun str :: "nat \<Rightarrow> string" where
  "str n = (if n < 10 then [char_of (48 + n)] else str (n div 10) @ [char_of (48 + n mod 10)])"

declare str.simps [simp del]

text \<open>
  \<open>df.to_csv(path, index=..., header=...)\<close>.  The text that pandas writes for a float
  cell is the parameter \<open>fmt\<close>.  With \<open>header\<close> the first line holds the column names,
  with \<open>index\<close> every line starts with the row label.  The file at \<open>path\<close> is replaced.
\<close>

definition csv_text :: "(float64 \<Rightarrow> string) \<Rightarrow> float64 frame \<Rightarrow> bool \<Rightarrow> bool \<Rightarrow> string" where
  "csv_text fmt df index header =
     (if header then csv_line ((if index then [[]] else []) @ columns df) else [])
     @ concat (map (\<lambda>(label, row). csv_line ((if index then [str label] else []) @ map fmt row))
         (body df))"

definition to_csv ::
    "(float64 \<Rightarrow> string) \<Rightarrow> float64 frame \<Rightarrow> string \<Rightarrow> bool \<Rightarrow> bool \<Rightarrow> world \<Rightarrow> world" where
  "to_csv fmt df path index header w =
     w\<lparr>files := (files w)(path \<mapsto> csv_text fmt df index header)\<rparr>"

text \<open>\<open>os.path.join(a, b)\<close> with the POSIX separator.\<close>

definition os_path_join :: "string \<Rightarrow> string \<Rightarrow> string" where
  "os_path_join a b =
     (if take 1 b = ''/'' then b
      else if a = [] \<or> last a = CHR ''/'' then a @ b
      else a @ ''/'' @ b)"

text \<open>
  \<open>Bucket(bucket).Object(key).upload_file(path)\<close>: the object at the key is replaced.
  A missing local file is the one failure in the model; failures of the remote store are
  left out.
\<close>

definition upload_file :: "string \<Rightarrow> string \<Rightarrow> string \<Rightarrow> world \<Rightarrow> error + world" where
  "upload_file b key path w =
     (case files w path of
        None \<Rightarrow> Inl FileNotFoundError
      | Some bytes \<Rightarrow> Inr (w\<lparr>objects := (objects w)((b, key) \<mapsto> bytes)\<rparr>))"

definition save_and_upload ::
    "(float64 \<Rightarrow> string) \<Rightarrow> environment \<Rightarrow> float64 frame \<Rightarrow> float64 frame \<Rightarrow> world
      \<Rightarrow> error + world" where
  "save_and_upload fmt env train_data validation_data w =
     (let w1 = to_csv fmt train_data ''train.csv'' False False w;
          w2 = to_csv fmt validation_data ''validation.csv'' False False w1
      in case upload_file (bucket env) (os_path_join prefix ''train/train.csv'') ''train.csv'' w2 of
           Inl e \<Rightarrow> Inl e
         | Inr w3 \<Rightarrow>
             upload_file (bucket env) (os_path_join prefix ''validation/validation.csv'')
               ''validation.csv'' w3)"

text \<open>Cells 3 to 5 in sequence: load, split, save and upload.\<close>

definition prepare_data ::
    "(float64 \<Rightarrow> string) \<Rightarrow> 'g numpy_random \<Rightarrow> environment \<Rightarrow> bunch \<Rightarrow> 'g \<Rightarrow> world
      \<Rightarrow> error + (world \<times> 'g)" where
  "prepare_data fmt np env iris g w =
     (case data iris of
        Inl e \<Rightarrow> Inl e
      | Inr df \<Rightarrow>
          (case split_data np df g of
             Inl e \<Rightarrow> Inl e
           | Inr ((train_data, validation_data, test_data), g') \<Rightarrow>
               (case save_and_upload fmt env train_data validation_data w of
                  Inl e \<Rightarrow> Inl e
                | Inr w' \<Rightarrow> Inr (w', g'))))"

text \<open>
  Cell 6.  The source gives no categorical entry; by the specification such an entry names
  a hyperparameter and lists its allowed values.
\<close>

record parameter_range =
  MaxValue :: string
  MinValue :: string
  Name :: string

record parameter_ranges =
  CategoricalParameterRanges :: "(string \<times> string list) list"
  ContinuousParameterRanges :: "parameter_range list"
  IntegerParameterRanges :: "parameter_range list"

record resource_limits =
  MaxNumberOfTrainingJobs :: int
  MaxParallelTrainingJobs :: int

record objective =
  MetricName :: string
  Type :: string

record tuning_config =
  ParameterRanges :: parameter_ranges
  ResourceLimits :: resource_limits
  Strategy :: string
  HyperParameterTuningJobObjective :: objective

definition tuning_job_config :: tuning_config where
  "tuning_job_config =
     \<lparr>ParameterRanges =
        \<lparr>CategoricalParameterRanges = [],
         ContinuousParameterRanges =
           [\<lparr>MaxValue = ''0.5'', MinValue = ''0.1'', Name = ''eta''\<rparr>],
         IntegerParameterRanges =
           [\<lparr>MaxValue = ''5'', MinValue = ''2'', Name = ''max_depth''\<rparr>]\<rparr>,
      ResourceLimits = \<lparr>MaxNumberOfTrainingJobs = 4, MaxParallelTrainingJobs = 2\<rparr>,
      Strategy = ''Bayesian'',
      HyperParameterTuningJobObjective =
        \<lparr>MetricName = ''validation:rmse'', Type = ''Minimize''\<rparr>\<rparr>"

text \<open>Cell 7.\<close>

definition training_image :: "environment \<Rightarrow> string" where
  "training_image env = image_uris_retrieve env ''xgboost'' (region env) ''1.0-1''"

text \<open>Cell 8.\<close>

definition s3_input_train :: "environment \<Rightarrow> string" where
  "s3_input_train env = ''s3://'' @ bucket env @ ''/'' @ prefix @ ''/train''"

definition s3_input_validation :: "environment \<Rightarrow> string" where
  "s3_input_validation env = ''s3://'' @ bucket env @ ''/'' @ prefix @ ''/validation/''"

text \<open>Cell 9.\<close>

record algorithm_specification =
  TrainingImage :: string
  TrainingInputMode :: string

record s3_data_source =
  S3DataDistributionType :: string
  S3DataType :: string
  S3Uri :: string

record data_source =
  S3DataSource :: s3_data_source

record channel =
  ChannelName :: string
  CompressionType :: string
  ContentType :: string
  DataSource :: data_source

record output_data_config =
  S3OutputPath :: string

record resource_config =
  InstanceCount :: int
  InstanceType :: string
  VolumeSizeInGB :: int

record stopping_condition =
  MaxRuntimeInSeconds :: int

record training_job =
  AlgorithmSpecification :: algorithm_specification
  InputDataConfig :: "channel list"
  OutputDataConfig :: output_data_config
  ResourceConfig :: resource_config
  RoleArn :: string
  StaticHyperParameters :: "string \<rightharpoonup> string"
  StoppingCondition :: stopping_condition

definition training_job_definition :: "environment \<Rightarrow> training_job" where
  "training_job_definition env =
     \<lparr>AlgorithmSpecification =
        \<lparr>TrainingImage = training_image env, TrainingInputMode = ''File''\<rparr>,
      InputDataConfig =
        [\<lparr>ChannelName = ''train'',
          CompressionType = ''None'',
          ContentType = ''csv'',
          DataSource =
            \<lparr>S3DataSource =
               \<lparr>S3DataDistributionType = ''FullyReplicated'',
                S3DataType = ''S3Prefix'',
                S3Uri = s3_input_train env\<rparr>\<rparr>\<rparr>,
         \<lparr>ChannelName = ''validation'',
          CompressionType = ''None'',
          ContentType = ''csv'',
          DataSource =
            \<lparr>S3DataSource =
               \<lparr>S3DataDistributionType = ''FullyReplicated'',
                S3DataType = ''S3Prefix'',
                S3Uri = s3_input_validation env\<rparr>\<rparr>\<rparr>],
      OutputDataConfig = \<lparr>S3OutputPath = ''s3://'' @ bucket env @ ''/'' @ prefix @ ''/output''\<rparr>,
      ResourceConfig =
        \<lparr>InstanceCount = 1, InstanceType = ''ml.m5.large'', VolumeSizeInGB = 5\<rparr>,
      RoleArn = role env,
      StaticHyperParameters =
        [''num_round'' \<mapsto> ''50'', ''objective'' \<mapsto> ''reg:squarederror'', ''verbosity'' \<mapsto> ''2''],
      StoppingCondition = \<lparr>MaxRuntimeInSeconds = 1800\<rparr>\<rparr>"

text \<open>Cell 10: the keyword arguments of the one call that submits the job.\<close>

record create_request =
  HyperParameterTuningJobName :: string
  HyperParameterTuningJobConfig :: tuning_config
  TrainingJobDefinition :: training_job

definition tuning_job_name :: string where
  "tuning_job_name = ''IrisHPO''"

definition create_hyper_parameter_tuning_job :: "environment \<Rightarrow> create_request" where
  "create_hyper_parameter_tuning_job env =
     \<lparr>HyperParameterTuningJobName = tuning_job_name,
      HyperParameterTuningJobConfig = tuning_job_config,
      TrainingJobDefinition = training_job_definition env\<rparr>"

text \<open>
  The text expected of an exported line: the four features of row \<open>i\<close> of the data set,
  then its label as a float, separated by commas and ended by a newline.
\<close>

definition five_field_line :: "(float64 \<Rightarrow> string) \<Rightarrow> bunch \<Rightarrow> nat \<Rightarrow> string" where
  "five_field_line fmt iris i =
     (let r = bunch_data iris ! i in
      fmt (r ! 0) @ '','' @ fmt (r ! 1) @ '','' @ fmt (r ! 2) @ '','' @ fmt (r ! 3) @ '',''
      @ fmt (round_binary64 (of_int (bunch_target iris ! i))) @ [CHR 0x0A])"

text \<open>
  The notebook has no reader.  Reading an exported text back is taken as what a CSV reader
  does with it: cut the text at the line ends, cut each line at the commas, and read each
  field with \<open>parse\<close>, which stands for Python's \<open>float(...)\<close> and is a parameter
  like \<open>fmt\<close>.  An empty line is a row without cells.  \<open>split_on c s\<close> is
  \<open>s.split(c)\<close> and \<open>splitlines\<close> is \<open>str.splitlines\<close> with the line feed as
  the line end.
\<close>

fun split_on :: "char \<Rightarrow> string \<Rightarrow> string list" where
  "split_on c [] = [[]]"
| "split_on c (x # xs) =
     (if x = c then [] # split_on c xs
      else (case split_on c xs of [] \<Rightarrow> [[x]] | y # ys \<Rightarrow> (x # y) # ys))"

definition splitlines :: "string \<Rightarrow> string list" where
  "splitlines text =
     (let pieces = split_on (CHR 0x0A) text in
      if last pieces = [] then butlast pieces else pieces)"

definition parse_line :: "(string \<Rightarrow> float64 option) \<Rightarrow> string \<Rightarrow> float64 list option" where
  "parse_line parse line =
     (if line = [] then Some [] else those (map parse (split_on (CHR '','') line)))"

definition parse_csv :: "(string \<Rightarrow> float64 option) \<Rightarrow> string \<Rightarrow> float64 list list option" where
  "parse_csv parse text = those (map (parse_line parse) (splitlines text))"

text \<open>
  What is expected of the text of one float cell: it is not empty, holds neither a comma
  nor a line end, and reads back as the cell.
\<close>

definition cell_ok :: "(float64 \<Rightarrow> string) \<Rightarrow> (string \<Rightarrow> float64 option) \<Rightarrow> float64 \<Rightarrow> bool" where
  "cell_ok fmt parse x =
     (fmt x \<noteq> [] \<and> CHR '','' \<notin> set (fmt x) \<and> CHR 0x0A \<notin> set (fmt x) \<and> parse (fmt x) = Some x)"

section \<open>The contract of the generator and example inputs\<close>

text \<open>
  What numpy promises of \<open>permutation\<close>: from every generator state it returns each of
  \<open>0, ..., n - 1\<close> once.
\<close>

definition permutation_ok :: "'g numpy_random \<Rightarrow> bool" where
  "permutation_ok np =
     (\<forall>g n. distinct (fst (permutation np g n)) \<and> set (fst (permutation np g n)) = {0..<n})"

text \<open>
  A small generator for concrete runs: its state is a counter, and a draw rotates the
  reversed range by the counter.
\<close>

definition example_random :: "nat numpy_random" where
  "example_random =
     \<lparr>RandomState = (\<lambda>seed. nat seed),
      permutation = (\<lambda>g n. (rotate g (rev [0..<n]), Suc g))\<rparr>"

definition example_frame :: "nat \<Rightarrow> int frame" where
  "example_frame n = \<lparr>columns = [''x''], body = zip [0..<n] (map (\<lambda>i. [int i * 7]) [0..<n])\<rparr>"

definition example_iris :: bunch where
  "example_iris =
     \<lparr>bunch_data = map (\<lambda>i. [of_nat i, of_nat i + 1 / 2, 3, 3 / 2]) [0..<10],
      bunch_target = [0, 0, 0, 1, 1, 1, 2, 2, 2, 2],
      bunch_feature_names = [''a'', ''b'', ''c'', ''d'']\<rparr>"

definition example_fmt :: "float64 \<Rightarrow> string" where
  "example_fmt x = str (nat \<lfloor>x\<rfloor>) @ ''.'' @ str (nat (\<lfloor>x * 10\<rfloor> mod 10))"

definition example_environment :: environment where
  "example_environment =
     \<lparr>region = ''eu-west-1'', role = ''r'', bucket = ''b'',
      image_uris_retrieve = (\<lambda>name reg version. name @ '':'' @ version @ ''@'' @ reg)\<rparr>"

definition empty_world :: world where
  "empty_world = \<lparr>files = Map.empty, objects = Map.empty\<rparr>"

text \<open>A reader for the texts of \<open>example_fmt\<close>: digits, a point, digits.\<close>

definition digit_value :: "char \<Rightarrow> nat option" where
  "digit_value c =
     (let n = of_char c :: nat in if 48 \<le> n \<and> n \<le> 57 then Some (n - 48) else None)"

fun digits_value :: "nat \<Rightarrow> string \<Rightarrow> nat option" where
  "digits_value acc [] = Some acc"
| "digits_value acc (c # cs) =
     (case digit_value c of None \<Rightarrow> None | Some d \<Rightarrow> digits_value (10 * acc + d) cs)"

definition example_parse :: "string \<Rightarrow> float64 option" where
  "example_parse s =
     (case split_on (CHR ''.'') s of
        [a, b] \<Rightarrow>
          (if a = [] \<or> b = [] then None
           else case (digits_value 0 a, digits_value 0 b) of
                  (Some m, Some n) \<Rightarrow> Some (of_nat m + of_nat n / 10 ^ length b)
                | _ \<Rightarrow> None)
      | _ \<Rightarrow> None)"

section \<open>Rounding\<close>

lemma bit_length_bounds:
  assumes "0 < n"
  shows "2 ^ (bit_length n - 1) \<le> n \<and> n < 2 ^ bit_length n"
  using assms
proof (induction n rule: bit_length.induct)
  case (1 n)
  show ?case
  proof (cases "n = 1")
    case True
    then show ?thesis by (simp add: bit_length.simps [of 1] bit_length.simps [of 0])
  next
    case False
    with "1.prems" have h: "0 < n div 2" by simp
    from "1.IH" [OF _ h] "1.prems"
    have ih: "2 ^ (bit_length (n div 2) - 1) \<le> n div 2" "n div 2 < 2 ^ bit_length (n div 2)"
      by simp_all
    have pos: "0 < bit_length (n div 2)"
      using h by (simp add: bit_length.simps [of "n div 2"])
    have bl: "bit_length n = Suc (bit_length (n div 2))"
      using "1.prems" by (simp add: bit_length.simps [of n])
    have "2 ^ (bit_length n - 1) = (2::int) * 2 ^ (bit_length (n div 2) - 1)"
      using pos bl by (cases "bit_length (n div 2)") simp_all
    also have "\<dots> \<le> 2 * (n div 2)" using ih(1) by simp
    also have "\<dots> \<le> n" by simp
    finally have lo: "2 ^ (bit_length n - 1) \<le> n" .
    have "n < 2 * (n div 2) + 2" by simp
    also have "\<dots> \<le> 2 * 2 ^ bit_length (n div 2)" using ih(2) by simp
    also have "\<dots> = 2 ^ bit_length n" by (simp add: bl)
    finally show ?thesis using lo by simp
  qed
qed

lemma pow2_powi: "pow2 k = 2 powi k"
  by (simp add: pow2_def power_int_def inverse_eq_divide power_one_over)

lemma pow2_pos: "0 < pow2 k"
  by (simp add: pow2_powi)

lemma pow2_add: "pow2 (j + k) = pow2 j * pow2 k"
  by (simp add: pow2_powi power_int_add)

lemma round_half_even_error: "\<bar>of_int (round_half_even x) - x\<bar> \<le> 1 / 2"
proof -
  have "of_int \<lfloor>x\<rfloor> \<le> x" "x < of_int \<lfloor>x\<rfloor> + 1" by linarith+
  then show ?thesis
    by (auto simp: round_half_even_def Let_def abs_le_iff)
qed

text \<open>The scaled argument of the final rounding has at least 53 binary digits.\<close>

lemma round_binary64_scale:
  assumes "0 < a"
  defines "s0 \<equiv> int (bit_length (fst (quotient_of a))) - int (bit_length (snd (quotient_of a))) - 53"
  shows "pow2 52 \<le> a / pow2 s0"
proof -
  obtain p q where pq: "quotient_of a = (p, q)" by (cases "quotient_of a")
  then have q: "0 < q" and a: "a = of_int p / of_int q"
    using quotient_of_denom_pos quotient_of_div by blast+
  have p: "0 < p" using assms(1) q a by (simp add: zero_less_divide_iff)
  let ?bp = "bit_length p" and ?bq = "bit_length q"
  have bp: "(2::int) ^ (?bp - 1) \<le> p" and bq: "q < 2 ^ ?bq"
    using bit_length_bounds [OF p] bit_length_bounds [OF q] by simp_all
  have bp_pos: "0 < ?bp" using p by (simp add: bit_length.simps [of p])
  have "(of_int q :: rat) < 2 ^ ?bq" using bq by (metis of_int_less_numeral_power_cancel_iff)
  moreover have "(2::rat) ^ (?bp - 1) \<le> of_int p"
    using bp by (metis of_int_numeral_le_iff numeral_power_le_of_int_cancel_iff)
  ultimately have "(2::rat) ^ (?bp - 1) * 1 \<le> of_int p * (2 ^ ?bq / of_int q)"
    using q p by (intro mult_mono) (simp_all add: pos_le_divide_eq)
  then have "(2::rat) ^ (?bp - 1) \<le> a * 2 ^ ?bq" by (simp add: a)
  then have "pow2 (int ?bp - 1) \<le> a * pow2 (int ?bq)"
    using bp_pos by (simp add: pow2_def nat_diff_distrib')
  then have "pow2 (int ?bp - 1) * pow2 (53 - int ?bp) \<le> a * pow2 (int ?bq) * pow2 (53 - int ?bp)"
    using pow2_pos by (simp add: mult_right_mono less_imp_le)
  moreover have "pow2 (int ?bp - 1) * pow2 (53 - int ?bp) = pow2 52"
    by (simp add: pow2_add [symmetric])
  moreover have "pow2 (int ?bq) * pow2 (53 - int ?bp) = pow2 (- s0)"
    by (simp add: pow2_add [symmetric] s0_def pq algebra_simps)
  ultimately have "pow2 52 \<le> a * pow2 (- s0)"
    by (simp add: mult.assoc)
  moreover have "a / pow2 s0 = a * pow2 (- s0)"
  proof -
    have "pow2 s0 * pow2 (- s0) = 1"
      by (simp add: pow2_add [symmetric]) (simp add: pow2_def)
    then have "pow2 (- s0) = 1 / pow2 s0"
      using pow2_pos [of s0] by (simp add: field_simps)
    then show ?thesis by simp
  qed
  ultimately show ?thesis by simp
qed

lemma round_binary64_error:
  assumes "0 < x"
  shows "\<bar>round_binary64 x - x\<bar> \<le> x / 2 ^ 53"
proof -
  define s0 where
    "s0 = int (bit_length (fst (quotient_of x))) - int (bit_length (snd (quotient_of x))) - 53"
  define s where "s = (if pow2 53 \<le> x / pow2 s0 then s0 + 1 else s0)"
  define y where "y = x / pow2 s"
  define m where "m = round_half_even y"
  have r: "round_binary64 x = of_int m * pow2 s"
    using assms by (simp add: round_binary64_def Let_def m_def y_def s_def s0_def)
  have base: "pow2 52 \<le> x / pow2 s0"
    using round_binary64_scale [OF assms] by (simp add: s0_def)
  have y52: "pow2 52 \<le> y"
  proof (cases "pow2 53 \<le> x / pow2 s0")
    case True
    then have "s = s0 + 1" by (simp add: s_def)
    then have "y = x / pow2 s0 / 2" by (simp add: y_def pow2_add) (simp add: pow2_def)
    moreover have "pow2 53 / 2 = pow2 52" by (simp add: pow2_def)
    ultimately show ?thesis using True by simp
  next
    case False
    then show ?thesis using base by (simp add: s_def y_def)
  qed
  have x: "x = y * pow2 s" using pow2_pos [of s] by (simp add: y_def)
  have "round_binary64 x - x = (of_int m - y) * pow2 s"
    by (simp add: r x [symmetric] algebra_simps)
  then have "\<bar>round_binary64 x - x\<bar> = \<bar>of_int m - y\<bar> * pow2 s"
    using pow2_pos [of s] by (simp add: abs_mult)
  also have "\<dots> \<le> 1 / 2 * pow2 s"
    using round_half_even_error [of y] pow2_pos [of s]
    by (intro mult_right_mono) (simp_all add: m_def)
  also have "\<dots> \<le> 1 / 2 * (x / 2 ^ 52)"
  proof -
    have "2 ^ 52 * pow2 s \<le> y * pow2 s"
      using y52 pow2_pos [of s] by (intro mult_right_mono) (simp_all add: pow2_def)
    then have "pow2 s \<le> x / 2 ^ 52" by (simp add: x [symmetric] field_simps)
    then show ?thesis by simp
  qed
  also have "\<dots> = x / 2 ^ 53" by simp
  finally show ?thesis .
qed

lemma round_binary64_near:
  assumes "0 < x"
  shows "99 / 100 * x \<le> round_binary64 x" and "round_binary64 x \<le> 101 / 100 * x"
proof -
  have "x / 2 ^ 53 \<le> x / 100" using assms by (intro divide_left_mono) simp_all
  with round_binary64_error [OF assms] have "\<bar>round_binary64 x - x\<bar> \<le> x / 100" by simp
  then show "99 / 100 * x \<le> round_binary64 x" and "round_binary64 x \<le> 101 / 100 * x"
    by linarith+
qed

text \<open>
  The overflow test by counting binary digits, for evaluation: a number is at least
  \<open>2 ^ 1024\<close> when its integer part has more than 1024 binary digits.
\<close>

lemma float_of_int_code [code]:
  "float_of_int n =
     (let r = round_binary64 (of_int n) in
      if 1024 < bit_length \<lfloor>\<bar>r\<bar>\<rfloor> then Inl OverflowError else Inr r)"
proof -
  have "pow2 1024 \<le> \<bar>r\<bar> \<longleftrightarrow> 1024 < bit_length \<lfloor>\<bar>r\<bar>\<rfloor>" for r :: rat
  proof -
    let ?m = "\<lfloor>\<bar>r\<bar>\<rfloor>"
    have "pow2 1024 = of_int (2 ^ 1024)" by (simp add: pow2_def)
    then have iff: "pow2 1024 \<le> \<bar>r\<bar> \<longleftrightarrow> 2 ^ 1024 \<le> ?m" by (simp only: le_floor_iff)
    show ?thesis
    proof (cases "0 < ?m")
      case True
      from bit_length_bounds [OF True]
      have lo: "2 ^ (bit_length ?m - 1) \<le> ?m" and hi: "?m < 2 ^ bit_length ?m" by simp_all
      show ?thesis
      proof
        assume "pow2 1024 \<le> \<bar>r\<bar>"
        then have "(2::int) ^ 1024 < 2 ^ bit_length ?m" using iff hi by linarith
        then show "1024 < bit_length ?m" by (simp only: power_strict_increasing_iff)
      next
        assume "1024 < bit_length ?m"
        then have "(2::int) ^ 1024 \<le> 2 ^ (bit_length ?m - 1)"
          by (intro power_increasing) simp_all
        then show "pow2 1024 \<le> \<bar>r\<bar>" using iff lo by linarith
      qed
    next
      case False
      then have "bit_length ?m = 0" by (simp add: bit_length.simps [of ?m])
      moreover have "\<not> 2 ^ 1024 \<le> ?m" using False by (simp add: not_le) 
      ultimately show ?thesis using iff by simp
    qed
  qed
  then show ?thesis by (simp add: float_of_int_def Let_def)
qed

text \<open>
  Some values of the model: the float \<open>0.2\<close> is the double with the bits
  \<open>0x3FC999999999999A\<close>, \<open>0.1 * 3\<close> is not \<open>0.3\<close>, and an integer with more
  than 53 binary digits is rounded to the even neighbour.
\<close>

lemma float_literal_examples:
  "float_literal (2 / 10) = 3602879701896397 / 2 ^ 54"
  "float_literal (5 / 10) = 1 / 2"
  "float_mul (float_literal (1 / 10)) 3 \<noteq> float_literal (3 / 10)"
  "float_of_int (2 ^ 53 + 1) = Inr (2 ^ 53)"
  "float_of_int (2 ^ 53 + 3) = Inr (2 ^ 53 + 4)"
  by code_simp+

lemma float_of_int_near:
  assumes "0 < n" and "n \<le> 2 ^ 1023"
  shows "\<exists>nf. float_of_int (int n) = Inr nf \<and> 99 / 100 * of_nat n \<le> nf \<and> nf \<le> 101 / 100 * of_nat n"
proof -
  let ?nf = "round_binary64 (of_int (int n))"
  have pos: "(0::rat) < of_int (int n)" using assms(1) by simp
  have lo: "99 / 100 * of_nat n \<le> ?nf" and hi: "?nf \<le> 101 / 100 * of_nat n"
    using round_binary64_near [OF pos] by simp_all
  have "(of_nat n :: rat) \<le> 2 ^ 1023"
    using assms(2) by (metis of_nat_le_iff of_nat_numeral of_nat_power)
  moreover have "(0::rat) < 2 ^ 1023" by simp
  ultimately have "?nf < 2 * 2 ^ 1023" using hi by linarith
  then have "?nf < pow2 1024" by (simp add: pow2_def)
  moreover have "0 \<le> ?nf" using lo by (meson dual_order.trans mult_nonneg_nonneg of_nat_0_le_iff
        zero_le_divide_iff zero_le_numeral)
  ultimately have "float_of_int (int n) = Inr ?nf"
    by (simp add: float_of_int_def Let_def)
  then show ?thesis using lo hi by blast
qed

lemma float_fifth: "1 / 5 \<le> float_literal (2 / 10)" "float_literal (2 / 10) \<le> 21 / 100"
  by code_simp+

lemma float_half: "float_literal (1 / 2) = 1 / 2"
  by code_simp

section \<open>Properties of the splitter\<close>

lemma permutation_ok_length:
  assumes "permutation_ok np"
  shows "length (fst (permutation np g n)) = n"
proof -
  have "distinct (fst (permutation np g n))" and "set (fst (permutation np g n)) = {0..<n}"
    using assms by (simp_all add: permutation_ok_def)
  then show ?thesis
    using distinct_card [of "fst (permutation np g n)"] by simp
qed

lemma permutation_ok_bound:
  assumes "permutation_ok np"
  shows "list_all (\<lambda>i. i < n) (fst (permutation np g n))"
  using assms by (simp add: permutation_ok_def list_all_iff)

lemma example_random_ok: "permutation_ok example_random"
  by (simp add: permutation_ok_def example_random_def)

lemma validate_int_Inr:
  assumes "validate_shuffle_split n (Int_size k) (Some t) = Inr (a, b)"
  shows "a = t \<and> b = k \<and> 0 < k \<and> 0 < t \<and> t + k \<le> int n"
  using assms by (auto simp: validate_shuffle_split_def Let_def split: if_splits)

lemma validate_float_Inr:
  assumes "validate_shuffle_split n (Float_size x) None = Inr (a, b)"
  shows "a + b = int n"
  using assms
  by (auto simp: validate_shuffle_split_def Let_def split: if_splits sum.splits)

text \<open>What a successful seeded call returns.\<close>

lemma train_test_split_Inr:
  assumes "train_test_split np df x (Some seed) g = Inr ((tr, te), g')"
  shows "\<exists>k. 0 < k \<and> k < length (body df) \<and> g' = g
          \<and> te = df\<lparr>body := map (\<lambda>i. body df ! i)
                 (take k (fst (permutation np (RandomState np seed) (length (body df)))))\<rparr>
          \<and> tr = df\<lparr>body := map (\<lambda>i. body df ! i)
                 (drop k (take (length (body df))
                    (fst (permutation np (RandomState np seed) (length (body df))))))\<rparr>"
proof -
  let ?n = "length (body df)"
  let ?p = "fst (permutation np (RandomState np seed) ?n)"
  from assms obtain a b where v: "validate_shuffle_split ?n (Float_size x) None = Inr (a, b)"
    by (auto simp: train_test_split_def Let_def split: sum.splits)
  from assms v obtain a' b' where
    w: "validate_shuffle_split ?n (Int_size b) (Some a) = Inr (a', b')"
    by (auto simp: train_test_split_def ShuffleSplit_def Let_def split: sum.splits)
  from validate_int_Inr [OF w] validate_float_Inr [OF v]
  have ab: "a' = a" "b' = b" "0 < b" "0 < a" "a + b = int ?n" by auto
  from assms v w ab have
    "g' = g"
    "te = df\<lparr>body := map (\<lambda>i. body df ! i) (take (nat b) ?p)\<rparr>"
    "tr = df\<lparr>body := map (\<lambda>i. body df ! i) (drop (nat b) (take (nat (b + a)) ?p))\<rparr>"
    by (auto simp: train_test_split_def ShuffleSplit_def draw_permutation_def iloc_def Let_def
        split: sum.splits if_splits)
  moreover have "nat (b + a) = ?n" using ab by simp
  moreover have "0 < nat b" "nat b < ?n" using ab by auto
  ultimately show ?thesis by (intro exI [of _ "nat b"]) simp
qed

text \<open>The two parts of a seeded split carry different labels and together have all rows.\<close>

lemma train_test_split_parts:
  assumes ok: "permutation_ok np"
    and lab: "distinct (map fst (body df))"
    and run: "train_test_split np df x (Some seed) g = Inr ((tr, te), g')"
  shows "distinct (map fst (body tr) @ map fst (body te))"
    and "length (body tr) + length (body te) = length (body df)"
    and "set (map fst (body tr)) \<subseteq> set (map fst (body df))"
    and "set (map fst (body te)) \<subseteq> set (map fst (body df))"
    and "g' = g"
proof -
  let ?n = "length (body df)"
  let ?p = "fst (permutation np (RandomState np seed) ?n)"
  let ?f = "\<lambda>i. fst (body df ! i)"
  obtain k where k: "0 < k" "k < ?n" and g: "g' = g"
    and te: "te = df\<lparr>body := map (\<lambda>i. body df ! i) (take k ?p)\<rparr>"
    and tr: "tr = df\<lparr>body := map (\<lambda>i. body df ! i) (drop k (take ?n ?p))\<rparr>"
    using train_test_split_Inr [OF run] by blast
  have len: "length ?p = ?n" using permutation_ok_length [OF ok] .
  have dist: "distinct ?p" and setp: "set ?p = {0..<?n}"
    using ok by (simp_all add: permutation_ok_def)
  have tk: "take ?n ?p = ?p" using len by simp
  have inj: "inj_on ?f (set ?p)"
  proof (rule inj_onI)
    fix i j assume "i \<in> set ?p" "j \<in> set ?p" "?f i = ?f j"
    then have "i < ?n" "j < ?n" "map fst (body df) ! i = map fst (body df) ! j"
      using setp by simp_all
    then show "i = j"
      using lab nth_eq_iff_index_eq [of "map fst (body df)" i j] by simp
  qed
  have eq: "map fst (body tr) @ map fst (body te) = map ?f (drop k ?p @ take k ?p)"
    by (simp add: tr te tk comp_def)
  have dd: "distinct (drop k ?p @ take k ?p)"
    using dist by (metis append_take_drop_id distinct_append inf_commute)
  have ss: "set (drop k ?p @ take k ?p) = set ?p"
    by (metis append_take_drop_id set_append sup_commute)
  have "distinct (map ?f (drop k ?p @ take k ?p))"
    unfolding distinct_map ss using dd inj by blast
  then show "distinct (map fst (body tr) @ map fst (body te))"
    by (simp only: eq)
  show "length (body tr) + length (body te) = ?n"
    using k len by (simp add: tr te tk)
  show "set (map fst (body tr)) \<subseteq> set (map fst (body df))"
  proof
    fix l assume "l \<in> set (map fst (body tr))"
    then obtain i where "i \<in> set (drop k ?p)" "l = ?f i" by (auto simp: tr tk)
    then have "i < ?n" "l = map fst (body df) ! i" using setp by (auto dest: in_set_dropD)
    then show "l \<in> set (map fst (body df))" by (metis length_map nth_mem)
  qed
  show "set (map fst (body te)) \<subseteq> set (map fst (body df))"
  proof
    fix l assume "l \<in> set (map fst (body te))"
    then obtain i where "i \<in> set (take k ?p)" "l = ?f i" by (auto simp: te)
    then have "i < ?n" "l = map fst (body df) ! i" using setp by (auto dest: in_set_takeD)
    then show "l \<in> set (map fst (body df))" by (metis length_map nth_mem)
  qed
  show "g' = g" by (rule g)
qed

text \<open>The frame of cell 3 has the labels \<open>0, 1, ...\<close>, each once.\<close>

lemma data_labels_distinct:
  assumes "data iris = Inr df"
  shows "map fst (body df) = [0..<length (bunch_data iris)]" and "distinct (map fst (body df))"
proof -
  from assms show "map fst (body df) = [0..<length (bunch_data iris)]"
    by (auto simp: data_def np_c_def DataFrame_def split: if_splits)
  then show "distinct (map fst (body df))" by simp
qed

text \<open>A seeded call succeeds as soon as the sizes are accepted.\<close>

lemma iloc_body:
  assumes "list_all (\<lambda>i. i < length (body df)) idx"
  shows "iloc df idx = Inr (df\<lparr>body := map (\<lambda>i. body df ! i) idx\<rparr>)"
  using assms by (simp add: iloc_def)

lemma train_test_split_ok:
  assumes ok: "permutation_ok np"
    and v: "validate_shuffle_split (length (body df)) (Float_size x) None = Inr (a, b)"
    and b: "0 < b" "0 < a"
    and seed: "0 \<le> seed" "seed < 2 ^ 32"
  shows "\<exists>tr te. train_test_split np df x (Some seed) g = Inr ((tr, te), g)
          \<and> length (body tr) = nat a \<and> length (body te) = nat b"
proof -
  let ?n = "length (body df)"
  let ?p = "fst (permutation np (RandomState np seed) ?n)"
  have ab: "a + b = int ?n" using validate_float_Inr [OF v] .
  have w: "validate_shuffle_split ?n (Int_size b) (Some a) = Inr (a, b)"
    using ab b by (simp add: validate_shuffle_split_def)
  have len: "length ?p = ?n" using permutation_ok_length [OF ok] .
  have bound: "list_all (\<lambda>i. i < ?n) ?p" using permutation_ok_bound [OF ok] .
  have te: "list_all (\<lambda>i. i < ?n) (take (nat b) ?p)"
    using bound by (auto simp: list_all_iff dest: in_set_takeD)
  have tr: "list_all (\<lambda>i. i < ?n) (drop (nat b) (take (nat (b + a)) ?p))"
    using bound by (auto simp: list_all_iff dest: in_set_takeD in_set_dropD)
  define itr where "itr = drop (nat b) (take (nat (b + a)) ?p)"
  define ite where "ite = take (nat b) ?p"
  have "train_test_split np df x (Some seed) g =
      Inr ((df\<lparr>body := map (\<lambda>i. body df ! i) itr\<rparr>,
            df\<lparr>body := map (\<lambda>i. body df ! i) ite\<rparr>), g)"
    using v w seed unfolding itr_def ite_def
    by (simp add: train_test_split_def ShuffleSplit_def draw_permutation_def Let_def
        iloc_body [OF tr] iloc_body [OF te])
  moreover have "length itr = nat a"
    using len ab b by (simp add: itr_def)
  moreover have "length ite = nat b"
    using len ab b by (simp add: ite_def)
  ultimately show ?thesis by simp
qed

text \<open>From six rows on the first call holds out at least two rows and not all of them.\<close>

lemma first_split_sizes:
  assumes "6 \<le> n" and "n \<le> 2 ^ 1023"
  shows "\<exists>k. 2 \<le> k \<and> k < int n
        \<and> validate_shuffle_split n (Float_size (float_literal (2 / 10))) None = Inr (int n - k, k)"
proof -
  let ?c = "float_literal (2 / 10)"
  from assms obtain nf where nf: "float_of_int (int n) = Inr nf"
    and lo: "99 / 100 * of_nat n \<le> nf" and hi: "nf \<le> 101 / 100 * of_nat n"
    using float_of_int_near [of n] by auto
  have n6: "(6::rat) \<le> of_nat n" using assms(1) by (metis of_nat_le_iff of_nat_numeral)
  have nf_pos: "0 < nf" using lo n6 by linarith
  have c_pos: "0 < ?c" using float_fifth(1) by linarith
  have p_lo: "1 / 5 * (99 / 100 * of_nat n) \<le> ?c * nf"
    using float_fifth(1) lo n6 by (intro mult_mono) simp_all
  have p_hi: "?c * nf \<le> 21 / 100 * (101 / 100 * of_nat n)"
    using float_fifth(2) hi n6 nf_pos by (intro mult_mono) simp_all
  have p_pos: "0 < ?c * nf" using c_pos nf_pos by simp
  let ?p = "float_mul ?c nf"
  have r_lo: "99 / 100 * (?c * nf) \<le> ?p" and r_hi: "?p \<le> 101 / 100 * (?c * nf)"
    using round_binary64_near [OF p_pos] by (simp_all add: float_mul_def)
  have "1 < ?p" using r_lo p_lo n6 by linarith
  then have k2: "2 \<le> ceil ?p" by (simp add: ceil_def)
  have "?p \<le> of_nat n - 1" using r_hi p_hi n6 by linarith
  then have "?p \<le> of_int (int n - 1)" by simp
  then have "ceil ?p \<le> int n - 1" unfolding ceil_def by (rule ceiling_le)
  then have kn: "ceil ?p < int n" by simp
  have c1: "?c < 1" using float_fifth(2) by linarith
  have "validate_shuffle_split n (Float_size ?c) None = Inr (int n - ceil ?p, ceil ?p)"
    using nf c_pos c1 kn by (simp add: validate_shuffle_split_def)
  then show ?thesis using k2 kn by blast
qed

lemma second_split_size_2:
  "validate_shuffle_split 2 (Float_size (float_literal (5 / 10))) None = Inr (1, 1)"
  by code_simp

text \<open>From two rows on the second call leaves at least one row on either side.\<close>

lemma second_split_sizes:
  assumes "2 \<le> n" and "n \<le> 2 ^ 1023"
  shows "\<exists>k. 1 \<le> k \<and> k < int n
        \<and> validate_shuffle_split n (Float_size (float_literal (5 / 10))) None = Inr (int n - k, k)"
proof (cases "n = 2")
  case True
  then show ?thesis using second_split_size_2 by (intro exI [of _ 1]) simp
next
  case False
  with assms have n3': "3 \<le> n" by simp
  from assms obtain nf where nf: "float_of_int (int n) = Inr nf"
    and lo: "99 / 100 * of_nat n \<le> nf" and hi: "nf \<le> 101 / 100 * of_nat n"
    using float_of_int_near [of n] by auto
  have n3: "(3::rat) \<le> of_nat n" using n3' by (metis of_nat_le_iff of_nat_numeral)
  have nf_pos: "0 < nf" using lo n3 by linarith
  let ?p = "float_mul (1 / 2) nf"
  have p_pos: "0 < 1 / 2 * nf" using nf_pos by simp
  have r_lo: "99 / 100 * (1 / 2 * nf) \<le> ?p" and r_hi: "?p \<le> 101 / 100 * (1 / 2 * nf)"
    using round_binary64_near [OF p_pos] by (simp_all add: float_mul_def)
  have "0 < ?p" using r_lo nf_pos by linarith
  then have k1: "1 \<le> ceil ?p" by (simp add: ceil_def)
  have "?p \<le> of_nat n - 1" using r_hi hi n3 by linarith
  then have "?p \<le> of_int (int n - 1)" by simp
  then have "ceil ?p \<le> int n - 1" unfolding ceil_def by (rule ceiling_le)
  then have kn: "ceil ?p < int n" by simp
  have "validate_shuffle_split n (Float_size (float_literal (5 / 10))) None
      = Inr (int n - ceil ?p, ceil ?p)"
    using nf kn by (simp add: validate_shuffle_split_def float_half)
  then show ?thesis using k1 kn by blast
qed

text \<open>Cell 4 returns on every frame of at least six rows.\<close>

lemma split_data_returns:
  assumes ok: "permutation_ok np"
    and n6: "6 \<le> length (body df)" and big: "length (body df) \<le> 2 ^ 1023"
  shows "\<exists>train_data validation_data test_data.
           split_data np df g = Inr ((train_data, validation_data, test_data), g)"
proof -
  from first_split_sizes [OF n6 big] obtain k where k: "2 \<le> k" "k < int (length (body df))"
    and v1: "validate_shuffle_split (length (body df)) (Float_size (float_literal (2 / 10))) None
              = Inr (int (length (body df)) - k, k)"
    by blast
  obtain tr te where
    s1: "train_test_split np df (float_literal (2 / 10)) (Some 42) g = Inr ((tr, te), g)"
    and te: "length (body te) = nat k"
    using train_test_split_ok [OF ok v1, of 42 g] k by auto
  have "2 \<le> length (body te)" "length (body te) \<le> 2 ^ 1023"
    using te k big by simp_all
  from second_split_sizes [OF this] obtain c where c: "1 \<le> c" "c < int (length (body te))"
    and v2: "validate_shuffle_split (length (body te)) (Float_size (float_literal (5 / 10))) None
              = Inr (int (length (body te)) - c, c)"
    by blast
  obtain va te' where
    s2: "train_test_split np te (float_literal (5 / 10)) (Some 42) g = Inr ((va, te'), g)"
    using train_test_split_ok [OF ok v2, of 42 g] c by auto
  have "split_data np df g = Inr ((tr, va, te'), g)"
    using s1 s2 by (simp add: split_data_def)
  then show ?thesis by blast
qed

lemma small_first_split:
  "validate_shuffle_split 0 (Float_size (float_literal (2 / 10))) None = Inl ValueError"
  "validate_shuffle_split 1 (Float_size (float_literal (2 / 10))) None = Inl ValueError"
  "validate_shuffle_split 2 (Float_size (float_literal (2 / 10))) None = Inr (1, 1)"
  "validate_shuffle_split 3 (Float_size (float_literal (2 / 10))) None = Inr (2, 1)"
  "validate_shuffle_split 4 (Float_size (float_literal (2 / 10))) None = Inr (3, 1)"
  "validate_shuffle_split 5 (Float_size (float_literal (2 / 10))) None = Inr (4, 1)"
  by code_simp+

lemma small_second_split:
  "validate_shuffle_split 1 (Float_size (float_literal (5 / 10))) None = Inl ValueError"
  by code_simp

text \<open>With fewer rows one of the two calls refuses the sizes.\<close>

lemma split_data_too_few_rows:
  assumes ok: "permutation_ok np" and n: "length (body df) < 6"
  shows "split_data np df g = Inl ValueError"
proof -
  let ?n = "length (body df)"
  consider "?n = 0 \<or> ?n = 1" | "2 \<le> ?n"
    by linarith
  then show ?thesis
  proof cases
    case 1
    then have "validate_shuffle_split ?n (Float_size (float_literal (2 / 10))) None
        = Inl ValueError"
      using small_first_split(1,2) by auto
    then have "train_test_split np df (float_literal (2 / 10)) (Some 42) g = Inl ValueError"
      by (simp add: train_test_split_def)
    then show ?thesis by (simp add: split_data_def)
  next
    case 2
    with n have "?n = 2 \<or> ?n = 3 \<or> ?n = 4 \<or> ?n = 5" by linarith
    then have v1: "validate_shuffle_split ?n (Float_size (float_literal (2 / 10))) None
        = Inr (int ?n - 1, 1)"
      using small_first_split(3-6) by auto
    obtain tr te where
      s1: "train_test_split np df (float_literal (2 / 10)) (Some 42) g = Inr ((tr, te), g)"
      and te: "length (body te) = 1"
      using train_test_split_ok [OF ok v1, of 42 g] 2 by auto
    have "validate_shuffle_split (length (body te)) (Float_size (float_literal (5 / 10))) None
        = Inl ValueError"
      using te small_second_split by simp
    then have "train_test_split np te (float_literal (5 / 10)) (Some 42) g = Inl ValueError"
      by (simp add: train_test_split_def)
    then show ?thesis using s1 by (simp add: split_data_def)
  qed
qed

lemma split_sizes_150:
  "validate_shuffle_split 150 (Float_size (float_literal (2 / 10))) None = Inr (120, 30)"
  by code_simp

lemma split_sizes_30:
  "validate_shuffle_split 30 (Float_size (float_literal (5 / 10))) None = Inr (15, 15)"
  by code_simp

text \<open>The two calls of cell 4 on 150 rows.\<close>

lemma split_data_150:
  assumes "permutation_ok np" and "length (body df) = 150"
  shows "\<exists>train_data validation_data test_data.
           split_data np df g = Inr ((train_data, validation_data, test_data), g)
           \<and> length (body train_data) = 120
           \<and> length (body validation_data) = 15
           \<and> length (body test_data) = 15"
proof -
  have v1: "validate_shuffle_split (length (body df)) (Float_size (float_literal (2 / 10))) None
      = Inr (120, 30)"
    using assms(2) split_sizes_150 by simp
  obtain tr te where
    s1: "train_test_split np df (float_literal (2 / 10)) (Some 42) g = Inr ((tr, te), g)"
    and tr: "length (body tr) = 120" and te: "length (body te) = 30"
    using train_test_split_ok [OF assms(1) v1, of 42 g] by auto
  have v2: "validate_shuffle_split (length (body te)) (Float_size (float_literal (5 / 10))) None
      = Inr (15, 15)"
    using te split_sizes_30 by simp
  obtain va te' where
    s2: "train_test_split np te (float_literal (5 / 10)) (Some 42) g = Inr ((va, te'), g)"
    and va: "length (body va) = 15" and te': "length (body te') = 15"
    using train_test_split_ok [OF assms(1) v2, of 42 g] by auto
  have "split_data np df g = Inr ((tr, va, te'), g)"
    using s1 s2 by (simp add: split_data_def)
  then show ?thesis using tr va te' by blast
qed

text \<open>
  The product that decides the first size: the float \<open>0.2\<close> is a little above one fifth, so
  the exact product with 150 is above 30; the float product rounds to 30.
\<close>

lemma float_product_150:
  "30 < float_literal (2 / 10) * 150" and "float_mul (float_literal (2 / 10)) 150 = 30"
  by code_simp+

text \<open>
  Claim C1.  On a frame of 150 rows, as the Iris frame is, cell 4 returns, and the train
  part has 120 rows, the validation part 15 and the test part 15.
\<close>

theorem iris_partition_sizes:
  assumes "permutation_ok np" and "length (body df) = 150"
  shows "\<exists>train_data validation_data test_data g'.
           split_data np df g = Inr ((train_data, validation_data, test_data), g')
           \<and> length (body train_data) = 120
           \<and> length (body validation_data) = 15
           \<and> length (body test_data) = 15
           \<and> 10 * length (body train_data) = 8 * length (body df)
           \<and> 10 * length (body validation_data) = length (body df)
           \<and> 10 * length (body test_data) = length (body df)"
proof -
  from split_data_150 [OF assms, of g] obtain tr va te where
    "split_data np df g = Inr ((tr, va, te), g)"
    "length (body tr) = 120" "length (body va) = 15" "length (body te) = 15"
    by blast
  then show ?thesis
    using assms(2) by (intro exI [of _ tr] exI [of _ va] exI [of _ te] exI [of _ g]) simp
qed

theorem iris_partition_sizes_witness:
  "permutation_ok example_random \<and> length (body (example_frame 150)) = 150
   \<and> (\<exists>train_data validation_data test_data g'.
        split_data example_random (example_frame 150) 0
          = Inr ((train_data, validation_data, test_data), g')
        \<and> length (body train_data) = 120
        \<and> length (body validation_data) = 15
        \<and> length (body test_data) = 15)"
proof -
  have h1: "permutation_ok example_random" by (rule example_random_ok)
  have h2: "length (body (example_frame 150)) = 150" by (simp add: example_frame_def)
  show ?thesis using h1 h2 iris_partition_sizes [OF h1 h2, of 0] by blast
qed

text \<open>
  Claim C2.  The text of the notebook announces a 60-20-20 split.  On 150 rows the code
  yields eight, one and one tenths of the rows; each part is more than one row away from
  the announced six, two and two tenths.
\<close>

theorem split_is_80_10_10_not_60_20_20:
  "\<exists>train_data validation_data test_data g'.
     split_data example_random (example_frame 150) 0
       = Inr ((train_data, validation_data, test_data), g')
     \<and> 10 * length (body train_data) = 8 * 150
     \<and> 10 * length (body validation_data) = 1 * 150
     \<and> 10 * length (body test_data) = 1 * 150
     \<and> 10 < \<bar>10 * int (length (body train_data)) - 6 * 150\<bar>
     \<and> 10 < \<bar>10 * int (length (body validation_data)) - 2 * 150\<bar>
     \<and> 10 < \<bar>10 * int (length (body test_data)) - 2 * 150\<bar>"
proof -
  have "length (body (example_frame 150)) = 150" by (simp add: example_frame_def)
  from split_data_150 [OF example_random_ok this, of 0]
  obtain tr va te where
    "split_data example_random (example_frame 150) 0 = Inr ((tr, va, te), 0)"
    "length (body tr) = 120" "length (body va) = 15" "length (body te) = 15"
    by blast
  then show ?thesis by (intro exI [of _ tr] exI [of _ va] exI [of _ te] exI [of _ 0]) simp
qed


section \<open>Partitions\<close>

lemma disjoint_rows:
  assumes "set (map fst xs) \<inter> set (map fst ys) = {}"
  shows "set xs \<inter> set ys = {}"
  using assms by force

text \<open>
  Claim C3.  Whenever cell 4 returns, no index label, hence no row, is in two of the three
  partitions, and the three sizes add up to the number of rows of the input.  The rows of
  the input carry different labels, as the rows of every frame made by \<open>DataFrame\<close> do.
\<close>

theorem partitions_disjoint_and_complete:
  assumes ok: "permutation_ok np"
    and lab: "distinct (map fst (body df))"
    and run: "split_data np df g = Inr ((train_data, validation_data, test_data), g')"
  shows "set (map fst (body train_data)) \<inter> set (map fst (body validation_data)) = {}
       \<and> set (map fst (body train_data)) \<inter> set (map fst (body test_data)) = {}
       \<and> set (map fst (body validation_data)) \<inter> set (map fst (body test_data)) = {}
       \<and> set (body train_data) \<inter> set (body validation_data) = {}
       \<and> set (body train_data) \<inter> set (body test_data) = {}
       \<and> set (body validation_data) \<inter> set (body test_data) = {}
       \<and> length (body train_data) + length (body validation_data) + length (body test_data)
           = length (body df)"
proof -
  from run obtain held g1 where
    s1: "train_test_split np df (float_literal (2 / 10)) (Some 42) g = Inr ((train_data, held), g1)"
    and s2: "train_test_split np held (float_literal (5 / 10)) (Some 42) g1
               = Inr ((validation_data, test_data), g')"
    by (auto simp: split_data_def split: sum.splits)
  note p1 = train_test_split_parts [OF ok lab s1]
  have lab_held: "distinct (map fst (body held))" using p1(1) by simp
  note p2 = train_test_split_parts [OF ok lab_held s2]
  have tv: "set (map fst (body train_data)) \<inter> set (map fst (body validation_data)) = {}"
    using p1(1) p2(3) by auto
  have tt: "set (map fst (body train_data)) \<inter> set (map fst (body test_data)) = {}"
    using p1(1) p2(4) by auto
  have vt: "set (map fst (body validation_data)) \<inter> set (map fst (body test_data)) = {}"
    using p2(1) by simp
  have len: "length (body train_data) + length (body validation_data) + length (body test_data)
      = length (body df)"
    using p1(2) p2(2) by simp
  show ?thesis
    using tv tt vt len disjoint_rows [OF tv] disjoint_rows [OF tt] disjoint_rows [OF vt]
    by blast
qed

lemma example_split_10:
  "split_data example_random (example_frame 10) 0 =
     Inr ((\<lparr>columns = [''x''],
            body = [(5, [35]), (4, [28]), (3, [21]), (2, [14]), (1, [7]), (0, [0]),
                    (9, [63]), (8, [56])]\<rparr>,
           \<lparr>columns = [''x''], body = [(7, [49])]\<rparr>,
           \<lparr>columns = [''x''], body = [(6, [42])]\<rparr>), 0)"
  by code_simp

theorem partitions_disjoint_and_complete_witness:
  "permutation_ok example_random
   \<and> distinct (map fst (body (example_frame 10)))
   \<and> split_data example_random (example_frame 10) 0 =
       Inr ((\<lparr>columns = [''x''],
              body = [(5, [35]), (4, [28]), (3, [21]), (2, [14]), (1, [7]), (0, [0]),
                      (9, [63]), (8, [56])]\<rparr>,
             \<lparr>columns = [''x''], body = [(7, [49])]\<rparr>,
             \<lparr>columns = [''x''], body = [(6, [42])]\<rparr>), 0)
   \<and> set [5, 4, 3, 2, 1, 0, 9, 8] \<inter> set [7::nat] = {}
   \<and> set [5, 4, 3, 2, 1, 0, 9, 8] \<inter> set [6::nat] = {}
   \<and> set [7] \<inter> set [6::nat] = {}
   \<and> 8 + 1 + 1 = length (body (example_frame 10))"
proof -
  have h1: "permutation_ok example_random" by (rule example_random_ok)
  have h2: "distinct (map fst (body (example_frame 10)))" by (simp add: example_frame_def)
  note h3 = example_split_10
  show ?thesis
    using h1 h2 h3 partitions_disjoint_and_complete [OF h1 h2 h3] by simp
qed

text \<open>With a seed, the outcome of a split does not depend on the global generator.\<close>

lemma train_test_split_seeded:
  "train_test_split np df x (Some seed) g =
     map_sum id (\<lambda>(parts, _). (parts, g)) (train_test_split np df x (Some seed) g0)"
  by (auto simp: train_test_split_def ShuffleSplit_def draw_permutation_def Let_def
      split: sum.splits prod.splits)

text \<open>
  Claim C4.  Cell 4 passes the seed 42 to both calls, so its outcome on a given frame is
  the same from whatever state of the global generator it is run, in particular when it is
  run a second time.
\<close>

theorem split_data_deterministic:
  "map_sum id fst (split_data np df g) = map_sum id fst (split_data np df g')"
proof -
  let ?A = "\<lambda>h. train_test_split np df (float_literal (2 / 10)) (Some 42) h"
  have A: "?A h = map_sum id (\<lambda>(parts, _). (parts, h)) (?A g)" for h
    by (rule train_test_split_seeded)
  show ?thesis
  proof (cases "?A g")
    case (Inl e)
    then have "?A g' = Inl e" using A [of g'] by simp
    with Inl show ?thesis by (simp add: split_data_def)
  next
    case (Inr r)
    obtain train_data held g1 where r: "r = ((train_data, held), g1)"
      by (cases r) auto
    have a1: "?A g = Inr ((train_data, held), g)" using A [of g] Inr r by simp
    have a2: "?A g' = Inr ((train_data, held), g')" using A [of g'] Inr r by simp
    let ?B = "\<lambda>h. train_test_split np held (float_literal (5 / 10)) (Some 42) h"
    have B: "?B h = map_sum id (\<lambda>(parts, _). (parts, h)) (?B g)" for h
      by (rule train_test_split_seeded)
    show ?thesis
    proof (cases "?B g")
      case (Inl e)
      then have "?B g' = Inl e" using B [of g'] by simp
      with Inl a1 a2 show ?thesis by (simp add: split_data_def)
    next
      case (Inr q)
      obtain validation_data test_data g2 where q: "q = ((validation_data, test_data), g2)"
        by (cases q) auto
      have b1: "?B g = Inr ((validation_data, test_data), g)" using B [of g] Inr q by simp
      have b2: "?B g' = Inr ((validation_data, test_data), g')" using B [of g'] Inr q by simp
      show ?thesis using a1 a2 b1 b2 by (simp add: split_data_def)
    qed
  qed
qed

text \<open>Without a seed the outcome does depend on the global generator.\<close>

lemma unseeded_split_depends_on_generator:
  "map_sum id fst (train_test_split example_random (example_frame 10) (float_literal (2 / 10)) None 0)
   \<noteq> map_sum id fst (train_test_split example_random (example_frame 10) (float_literal (2 / 10)) None 1)"
  by code_simp

section \<open>The job configuration\<close>

text \<open>
  Claim C5.  The search space has one continuous entry, \<open>eta\<close> from 0.1 to 0.5, one
  integer entry, \<open>max_depth\<close> from 2 to 5, and no name in two of the three lists.
\<close>

theorem search_space_entries:
  "ContinuousParameterRanges (ParameterRanges tuning_job_config)
     = [\<lparr>MaxValue = ''0.5'', MinValue = ''0.1'', Name = ''eta''\<rparr>]
   \<and> IntegerParameterRanges (ParameterRanges tuning_job_config)
     = [\<lparr>MaxValue = ''5'', MinValue = ''2'', Name = ''max_depth''\<rparr>]
   \<and> length (ContinuousParameterRanges (ParameterRanges tuning_job_config)) = 1
   \<and> length (IntegerParameterRanges (ParameterRanges tuning_job_config)) = 1
   \<and> set (map fst (CategoricalParameterRanges (ParameterRanges tuning_job_config)))
       \<inter> set (map Name (ContinuousParameterRanges (ParameterRanges tuning_job_config))) = {}
   \<and> set (map fst (CategoricalParameterRanges (ParameterRanges tuning_job_config)))
       \<inter> set (map Name (IntegerParameterRanges (ParameterRanges tuning_job_config))) = {}
   \<and> set (map Name (ContinuousParameterRanges (ParameterRanges tuning_job_config)))
       \<inter> set (map Name (IntegerParameterRanges (ParameterRanges tuning_job_config))) = {}"
  by (simp add: tuning_job_config_def)

text \<open>
  Claim C6.  At most 2 trials run at once and at most 4 in total, and 2 is at most 4.
\<close>

theorem resource_limits_bounded:
  "MaxParallelTrainingJobs (ResourceLimits tuning_job_config) = 2
   \<and> MaxNumberOfTrainingJobs (ResourceLimits tuning_job_config) = 4
   \<and> MaxParallelTrainingJobs (ResourceLimits tuning_job_config)
       \<le> MaxNumberOfTrainingJobs (ResourceLimits tuning_job_config)"
  by (simp add: tuning_job_config_def)

lemma save_and_upload_objects:
  "save_and_upload fmt env train_data validation_data w =
     Inr (w\<lparr>files := (files w)(''train.csv'' \<mapsto> csv_text fmt train_data False False,
                              ''validation.csv'' \<mapsto> csv_text fmt validation_data False False),
            objects := (objects w)
              ((bucket env, ''DEMO-iris-hpo-xgboost/train/train.csv'')
                 \<mapsto> csv_text fmt train_data False False,
               (bucket env, ''DEMO-iris-hpo-xgboost/validation/validation.csv'')
                 \<mapsto> csv_text fmt validation_data False False)\<rparr>)"
  by (simp add: save_and_upload_def to_csv_def upload_file_def os_path_join_def prefix_def)

text \<open>
  Claim C7.  The objective minimises \<open>validation:rmse\<close>; the job definition has the two
  channels \<open>train\<close> and \<open>validation\<close>; cell 5 leaves the two files under the keys
  \<open>prefix/train/train.csv\<close> and \<open>prefix/validation/validation.csv\<close> of the bucket, and
  the address of each channel is an initial part of the address of the corresponding
  object; the run time is bounded by 1800 seconds and one instance is requested.
\<close>

theorem job_configuration:
  "HyperParameterTuningJobObjective tuning_job_config
     = \<lparr>MetricName = ''validation:rmse'', Type = ''Minimize''\<rparr>
   \<and> map (\<lambda>c. S3Uri (S3DataSource (DataSource c))) (InputDataConfig (training_job_definition env))
     = [''s3://'' @ bucket env @ ''/DEMO-iris-hpo-xgboost/train'',
        ''s3://'' @ bucket env @ ''/DEMO-iris-hpo-xgboost/validation/'']
   \<and> map ChannelName (InputDataConfig (training_job_definition env)) = [''train'', ''validation'']
   \<and> (\<exists>w'. save_and_upload fmt env train_data validation_data w = Inr w'
        \<and> objects w' (bucket env, ''DEMO-iris-hpo-xgboost/train/train.csv'')
            = Some (csv_text fmt train_data False False)
        \<and> objects w' (bucket env, ''DEMO-iris-hpo-xgboost/validation/validation.csv'')
            = Some (csv_text fmt validation_data False False))
   \<and> ''s3://'' @ bucket env @ ''/'' @ ''DEMO-iris-hpo-xgboost/train/train.csv''
       = S3Uri (S3DataSource (DataSource (InputDataConfig (training_job_definition env) ! 0)))
         @ ''/train.csv''
   \<and> ''s3://'' @ bucket env @ ''/'' @ ''DEMO-iris-hpo-xgboost/validation/validation.csv''
       = S3Uri (S3DataSource (DataSource (InputDataConfig (training_job_definition env) ! 1)))
         @ ''validation.csv''
   \<and> MaxRuntimeInSeconds (StoppingCondition (training_job_definition env)) = 1800
   \<and> InstanceCount (ResourceConfig (training_job_definition env)) = 1"
  by (simp add: save_and_upload_objects tuning_job_config_def training_job_definition_def
      s3_input_train_def s3_input_validation_def prefix_def)

text \<open>
  Claim C10.  The name in the request is \<open>IrisHPO\<close> whatever the environment, so two
  executions submit the same name.
\<close>

theorem job_name_constant:
  "HyperParameterTuningJobName (create_hyper_parameter_tuning_job env) = ''IrisHPO''
   \<and> HyperParameterTuningJobName (create_hyper_parameter_tuning_job env)
       = HyperParameterTuningJobName (create_hyper_parameter_tuning_job env')"
  by (simp add: create_hyper_parameter_tuning_job_def tuning_job_name_def)

section \<open>The exported files\<close>

text \<open>The rows of the two parts of a seeded split, by position in the frame that was split.\<close>

lemma train_test_split_rows:
  assumes "train_test_split np df x (Some seed) g = Inr ((tr, te), g')"
  shows "\<exists>itr ite. list_all (\<lambda>i. i < length (body df)) itr
           \<and> list_all (\<lambda>i. i < length (body df)) ite
           \<and> body tr = map (\<lambda>i. body df ! i) itr
           \<and> body te = map (\<lambda>i. body df ! i) ite"
  using assms
  by (auto simp: train_test_split_def iloc_def Let_def split: sum.splits if_splits prod.splits)
    blast

lemma split_data_rows:
  assumes "split_data np df g = Inr ((train_data, validation_data, test_data), g')"
  shows "\<exists>itr iva. list_all (\<lambda>i. i < length (body df)) itr
           \<and> list_all (\<lambda>i. i < length (body df)) iva
           \<and> body train_data = map (\<lambda>i. body df ! i) itr
           \<and> body validation_data = map (\<lambda>i. body df ! i) iva"
proof -
  from assms obtain held g1 where
    s1: "train_test_split np df (float_literal (2 / 10)) (Some 42) g = Inr ((train_data, held), g1)"
    and s2: "train_test_split np held (float_literal (5 / 10)) (Some 42) g1
               = Inr ((validation_data, test_data), g')"
    by (auto simp: split_data_def split: sum.splits)
  from train_test_split_rows [OF s1] obtain itr ihe where
    itr: "list_all (\<lambda>i. i < length (body df)) itr" "body train_data = map (\<lambda>i. body df ! i) itr"
    and ihe: "list_all (\<lambda>i. i < length (body df)) ihe" "body held = map (\<lambda>i. body df ! i) ihe"
    by blast
  from train_test_split_rows [OF s2] obtain jva jte where
    jva: "list_all (\<lambda>j. j < length (body held)) jva"
      "body validation_data = map (\<lambda>j. body held ! j) jva"
    by blast
  have "list_all (\<lambda>i. i < length (body df)) (map (\<lambda>j. ihe ! j) jva)"
    using jva(1) ihe by (auto simp: list_all_iff)
  moreover have "body validation_data = map (\<lambda>i. body df ! i) (map (\<lambda>j. ihe ! j) jva)"
    using jva ihe(2) by (auto simp: list_all_iff)
  ultimately show ?thesis using itr by blast
qed

text \<open>Row \<open>i\<close> of the frame of cell 3: the four features, then the label.\<close>

lemma data_row:
  assumes shape: "list_all (\<lambda>r. length r = 4) (bunch_data iris)"
    and d: "data iris = Inr df"
    and i: "i < length (body df)"
  shows "i < length (bunch_data iris)"
    and "csv_line (map fmt (snd (body df ! i))) = five_field_line fmt iris i"
proof -
  from d have len: "length (bunch_data iris) = length (bunch_target iris)"
    and body: "body df = zip [0..<length (bunch_data iris)]
        (map2 (\<lambda>r x. r @ [round_binary64 (of_int x)]) (bunch_data iris) (bunch_target iris))"
    by (auto simp: data_def np_c_def DataFrame_def split: if_splits)
  from i body len show i': "i < length (bunch_data iris)" by simp
  with shape have "length (bunch_data iris ! i) = 4" by (simp add: list_all_length)
  then obtain a b c e where r: "bunch_data iris ! i = [a, b, c, e]"
    by (auto simp: length_Suc_conv numeral_eq_Suc)
  have "snd (body df ! i) = bunch_data iris ! i @ [round_binary64 (of_int (bunch_target iris ! i))]"
    using i' len by (simp add: body)
  then show "csv_line (map fmt (snd (body df ! i))) = five_field_line fmt iris i"
    by (simp add: r csv_line_def five_field_line_def)
qed

lemma csv_text_rows:
  "csv_text fmt df False False = concat (map (\<lambda>row. csv_line (map fmt (snd row))) (body df))"
  by (simp add: csv_text_def case_prod_unfold)

text \<open>
  Claim C9.  When the Iris matrix has four feature columns and cells 3 to 5 run through,
  both exported files, locally and in the bucket, consist of lines of five fields each:
  the four features of a row of the data set in their order, then the class label of that
  row.
\<close>

theorem exported_rows_five_fields_label_last:
  assumes shape: "list_all (\<lambda>r. length r = 4) (bunch_data iris)"
    and run: "prepare_data fmt np env iris g w = Inr (w', g')"
  shows "\<exists>train_rows validation_rows.
           length (bunch_target iris) = length (bunch_data iris)
         \<and> list_all (\<lambda>i. i < length (bunch_data iris)) train_rows
         \<and> list_all (\<lambda>i. i < length (bunch_data iris)) validation_rows
         \<and> files w' ''train.csv'' = Some (concat (map (five_field_line fmt iris) train_rows))
         \<and> files w' ''validation.csv''
             = Some (concat (map (five_field_line fmt iris) validation_rows))
         \<and> objects w' (bucket env, ''DEMO-iris-hpo-xgboost/train/train.csv'')
             = Some (concat (map (five_field_line fmt iris) train_rows))
         \<and> objects w' (bucket env, ''DEMO-iris-hpo-xgboost/validation/validation.csv'')
             = Some (concat (map (five_field_line fmt iris) validation_rows))"
proof -
  from run obtain df train_data validation_data test_data where
    d: "data iris = Inr df"
    and s: "split_data np df g = Inr ((train_data, validation_data, test_data), g')"
    and u: "save_and_upload fmt env train_data validation_data w = Inr w'"
    by (auto simp: prepare_data_def split: sum.splits)
  from split_data_rows [OF s] obtain itr iva where
    itr: "list_all (\<lambda>i. i < length (body df)) itr" "body train_data = map (\<lambda>i. body df ! i) itr"
    and iva: "list_all (\<lambda>i. i < length (body df)) iva"
      "body validation_data = map (\<lambda>i. body df ! i) iva"
    by blast
  have rows: "list_all (\<lambda>i. i < length (bunch_data iris)) idx
      \<and> concat (map (\<lambda>row. csv_line (map fmt (snd row))) (map (\<lambda>i. body df ! i) idx))
          = concat (map (five_field_line fmt iris) idx)"
    if "list_all (\<lambda>i. i < length (body df)) idx" for idx
  proof -
    have "\<forall>i\<in>set idx. i < length (bunch_data iris)
        \<and> csv_line (map fmt (snd (body df ! i))) = five_field_line fmt iris i"
      using that data_row [OF shape d] by (auto simp: list_all_iff)
    then show ?thesis
      by (auto simp: list_all_iff comp_def intro!: arg_cong [where f = concat])
  qed
  have t: "csv_text fmt train_data False False = concat (map (five_field_line fmt iris) itr)"
    using rows [OF itr(1)] by (simp add: csv_text_rows itr(2))
  have v: "csv_text fmt validation_data False False = concat (map (five_field_line fmt iris) iva)"
    using rows [OF iva(1)] by (simp add: csv_text_rows iva(2))
  from u have "w' = w\<lparr>files := (files w)(''train.csv'' \<mapsto> csv_text fmt train_data False False,
                              ''validation.csv'' \<mapsto> csv_text fmt validation_data False False),
            objects := (objects w)
              ((bucket env, ''DEMO-iris-hpo-xgboost/train/train.csv'')
                 \<mapsto> csv_text fmt train_data False False,
               (bucket env, ''DEMO-iris-hpo-xgboost/validation/validation.csv'')
                 \<mapsto> csv_text fmt validation_data False False)\<rparr>"
    by (simp add: save_and_upload_objects)
  then have "files w' ''train.csv'' = Some (concat (map (five_field_line fmt iris) itr))"
    "files w' ''validation.csv'' = Some (concat (map (five_field_line fmt iris) iva))"
    "objects w' (bucket env, ''DEMO-iris-hpo-xgboost/train/train.csv'')
       = Some (concat (map (five_field_line fmt iris) itr))"
    "objects w' (bucket env, ''DEMO-iris-hpo-xgboost/validation/validation.csv'')
       = Some (concat (map (five_field_line fmt iris) iva))"
    using t v by simp_all
  moreover have "length (bunch_target iris) = length (bunch_data iris)"
    using d by (auto simp: data_def np_c_def split: if_splits)
  ultimately show ?thesis using rows [OF itr(1)] rows [OF iva(1)] by blast
qed

lemma example_run:
  "case prepare_data example_fmt example_random example_environment example_iris 0 empty_world of
     Inl e \<Rightarrow> False
   | Inr (w', g') \<Rightarrow> files w' ''validation.csv'' = Some (''7.0,7.5,3.0,1.5,2.0'' @ [CHR 0x0A])"
  by code_simp

theorem exported_rows_five_fields_label_last_witness:
  "list_all (\<lambda>r. length r = 4) (bunch_data example_iris)
   \<and> (\<exists>w' g'. prepare_data example_fmt example_random example_environment example_iris 0 empty_world
          = Inr (w', g')
        \<and> files w' ''validation.csv'' = Some (''7.0,7.5,3.0,1.5,2.0'' @ [CHR 0x0A])
        \<and> (\<exists>train_rows validation_rows.
             length (bunch_target example_iris) = length (bunch_data example_iris)
           \<and> list_all (\<lambda>i. i < length (bunch_data example_iris)) train_rows
           \<and> list_all (\<lambda>i. i < length (bunch_data example_iris)) validation_rows
           \<and> files w' ''train.csv''
               = Some (concat (map (five_field_line example_fmt example_iris) train_rows))
           \<and> files w' ''validation.csv''
               = Some (concat (map (five_field_line example_fmt example_iris) validation_rows))
           \<and> objects w' (bucket example_environment, ''DEMO-iris-hpo-xgboost/train/train.csv'')
               = Some (concat (map (five_field_line example_fmt example_iris) train_rows))
           \<and> objects w' (bucket example_environment,
                 ''DEMO-iris-hpo-xgboost/validation/validation.csv'')
               = Some (concat (map (five_field_line example_fmt example_iris) validation_rows))))"
proof -
  have h1: "list_all (\<lambda>r. length r = 4) (bunch_data example_iris)"
    by (simp add: example_iris_def list_all_iff)
  from example_run obtain w' g' where
    h2: "prepare_data example_fmt example_random example_environment example_iris 0 empty_world
          = Inr (w', g')"
    and v: "files w' ''validation.csv'' = Some (''7.0,7.5,3.0,1.5,2.0'' @ [CHR 0x0A])"
    by (auto split: sum.splits)
  show ?thesis
    using h1 h2 v exported_rows_five_fields_label_last [OF h1 h2] by blast
qed

section \<open>Reading the exported files back\<close>

lemma split_on_none: "c \<notin> set xs \<Longrightarrow> split_on c xs = [xs]"
  by (induction xs) auto

lemma split_on_append: "c \<notin> set xs \<Longrightarrow> split_on c (xs @ c # ys) = xs # split_on c ys"
  by (induction xs) auto

lemma split_on_join:
  assumes "fs \<noteq> []" and "\<forall>f\<in>set fs. c \<notin> set f"
  shows "split_on c (join [c] fs) = fs"
  using assms
proof (induction "[c]" fs rule: join.induct)
  case 1
  then show ?case by simp
next
  case (2 x)
  then show ?case by (simp add: split_on_none)
next
  case (3 x y ys)
  then show ?case by (simp add: split_on_append)
qed

lemma join_eq_Nil: "join sep (f # fs) = [] \<Longrightarrow> f = []"
  by (cases fs) auto

lemma set_join: "set (join sep fs) \<subseteq> set sep \<union> \<Union> (set ` set fs)"
  by (induction sep fs rule: join.induct) auto

lemma those_map_Some:
  assumes "\<forall>x\<in>set xs. f (g x) = Some x"
  shows "those (map f (map g xs)) = Some xs"
  using assms by (induction xs) auto

lemma parse_line_row:
  assumes "list_all (cell_ok fmt parse) row"
  shows "parse_line parse (join '','' (map fmt row)) = Some row"
proof (cases row)
  case Nil
  then show ?thesis by (simp add: parse_line_def)
next
  case (Cons x xs)
  have ok: "\<forall>y\<in>set row. fmt y \<noteq> [] \<and> CHR '','' \<notin> set (fmt y) \<and> parse (fmt y) = Some y"
    using assms by (auto simp: list_all_iff cell_ok_def)
  then have "fmt x \<noteq> []" using Cons by simp
  then have ne: "join '','' (map fmt row) \<noteq> []"
    using Cons join_eq_Nil [of "'',''" "fmt x" "map fmt xs"] by auto
  have "split_on (CHR '','') (join '','' (map fmt row)) = map fmt row"
    using ok Cons by (intro split_on_join) auto
  moreover have "those (map parse (map fmt row)) = Some row"
    using ok by (intro those_map_Some) simp
  ultimately show ?thesis using ne by (simp add: parse_line_def)
qed

lemma split_on_lines:
  assumes "\<forall>l\<in>set ls. c \<notin> set l"
  shows "split_on c (concat (map (\<lambda>l. l @ [c]) ls)) = ls @ [[]]"
  using assms by (induction ls) (simp_all add: split_on_append)

lemma splitlines_lines:
  assumes "\<forall>l\<in>set ls. CHR 0x0A \<notin> set l"
  shows "splitlines (concat (map (\<lambda>l. l @ [CHR 0x0A]) ls)) = ls"
  by (simp add: splitlines_def split_on_lines [OF assms])

lemma csv_round_trip:
  assumes "list_all (list_all (cell_ok fmt parse)) (map snd (body df))"
  shows "parse_csv parse (csv_text fmt df False False) = Some (map snd (body df))"
proof -
  let ?rows = "map snd (body df)"
  let ?ls = "map (\<lambda>row. join '','' (map fmt row)) ?rows"
  have txt0: "csv_text fmt df False False = concat (map (\<lambda>l. l @ [CHR 0x0A]) ?ls)"
    by (simp add: csv_text_def csv_line_def comp_def case_prod_unfold)
  have nl: "\<forall>l\<in>set ?ls. CHR 0x0A \<notin> set l"
  proof
    fix l assume "l \<in> set ?ls"
    then obtain row where row: "row \<in> set ?rows" and l: "l = join '','' (map fmt row)" by auto
    have "\<forall>x\<in>set row. CHR 0x0A \<notin> set (fmt x)"
      using assms row by (auto simp: list_all_iff cell_ok_def)
    then show "CHR 0x0A \<notin> set l"
      using set_join [of "'',''" "map fmt row"] by (auto simp: l)
  qed
  have pl: "map (parse_line parse) ?ls = map Some ?rows"
    using assms by (auto simp: list_all_iff parse_line_row)
  have th: "those (map Some xs) = Some xs" for xs :: "float64 list list"
    by (induction xs) auto
  have "parse_csv parse (csv_text fmt df False False)
      = those (map (parse_line parse) (splitlines (concat (map (\<lambda>l. l @ [CHR 0x0A]) ?ls))))"
    by (simp only: parse_csv_def txt0)
  also have "\<dots> = those (map (parse_line parse) ?ls)"
    by (simp only: splitlines_lines [OF nl])
  also have "\<dots> = those (map Some ?rows)" by (simp only: pl)
  also have "\<dots> = Some ?rows" by (rule th)
  finally show ?thesis .
qed

lemma csv_lines:
  assumes "list_all (list_all (cell_ok fmt parse)) (map snd (body df))"
  shows "splitlines (csv_text fmt df False False)
           = map (\<lambda>row. join '','' (map fmt (snd row))) (body df)"
proof -
  let ?ls = "map (\<lambda>row. join '','' (map fmt (snd row))) (body df)"
  have txt0: "csv_text fmt df False False = concat (map (\<lambda>l. l @ [CHR 0x0A]) ?ls)"
    by (simp add: csv_text_def csv_line_def comp_def case_prod_unfold)
  have nl: "\<forall>l\<in>set ?ls. CHR 0x0A \<notin> set l"
  proof
    fix l assume "l \<in> set ?ls"
    then obtain row where row: "row \<in> set (body df)" and l: "l = join '','' (map fmt (snd row))"
      by auto
    have "\<forall>x\<in>set (snd row). CHR 0x0A \<notin> set (fmt x)"
      using assms row by (auto simp: list_all_iff cell_ok_def)
    then show "CHR 0x0A \<notin> set l"
      using set_join [of "'',''" "map fmt (snd row)"] by (auto simp: l)
  qed
  show ?thesis by (simp only: txt0 splitlines_lines [OF nl])
qed

lemma train_test_split_subset:
  assumes "train_test_split np df x (Some seed) g = Inr ((tr, te), g')"
  shows "set (body tr) \<subseteq> set (body df)" and "set (body te) \<subseteq> set (body df)"
proof -
  from train_test_split_rows [OF assms] obtain itr ite where
    "list_all (\<lambda>i. i < length (body df)) itr" "list_all (\<lambda>i. i < length (body df)) ite"
    "body tr = map (\<lambda>i. body df ! i) itr" "body te = map (\<lambda>i. body df ! i) ite"
    by blast
  then show "set (body tr) \<subseteq> set (body df)" and "set (body te) \<subseteq> set (body df)"
    by (auto simp: list_all_iff)
qed

lemma split_data_subset:
  assumes "split_data np df g = Inr ((train_data, validation_data, test_data), g')"
  shows "set (body train_data) \<subseteq> set (body df)"
    and "set (body validation_data) \<subseteq> set (body df)"
    and "set (body test_data) \<subseteq> set (body df)"
proof -
  from assms obtain held g1 where
    s1: "train_test_split np df (float_literal (2 / 10)) (Some 42) g = Inr ((train_data, held), g1)"
    and s2: "train_test_split np held (float_literal (5 / 10)) (Some 42) g1
               = Inr ((validation_data, test_data), g')"
    by (auto simp: split_data_def split: sum.splits)
  note a = train_test_split_subset [OF s1] and b = train_test_split_subset [OF s2]
  show "set (body train_data) \<subseteq> set (body df)" by (rule a(1))
  show "set (body validation_data) \<subseteq> set (body df)" using a(2) b(1) by blast
  show "set (body test_data) \<subseteq> set (body df)" using a(2) b(2) by blast
qed

text \<open>
  Claim C8.  Cell 5 writes every partition with \<open>index=False, header=False\<close>.  When the
  text of every cell of the frame reads back as the cell, then for each of the three
  partitions the lines of the text are the rows, cell by cell, with no line for the column
  names and no field for the row label, and reading the text back gives the values of the
  partition; the two files and the two uploaded objects hold these texts.
\<close>

theorem export_round_trips:
  assumes cells: "list_all (list_all (cell_ok fmt parse)) (map snd (body df))"
    and s: "split_data np df g = Inr ((train_data, validation_data, test_data), g')"
    and u: "save_and_upload fmt env train_data validation_data w = Inr w'"
  shows "files w' ''train.csv'' = Some (csv_text fmt train_data False False)
       \<and> files w' ''validation.csv'' = Some (csv_text fmt validation_data False False)
       \<and> objects w' (bucket env, ''DEMO-iris-hpo-xgboost/train/train.csv'')
           = Some (csv_text fmt train_data False False)
       \<and> objects w' (bucket env, ''DEMO-iris-hpo-xgboost/validation/validation.csv'')
           = Some (csv_text fmt validation_data False False)
       \<and> splitlines (csv_text fmt train_data False False)
           = map (\<lambda>row. join '','' (map fmt (snd row))) (body train_data)
       \<and> splitlines (csv_text fmt validation_data False False)
           = map (\<lambda>row. join '','' (map fmt (snd row))) (body validation_data)
       \<and> splitlines (csv_text fmt test_data False False)
           = map (\<lambda>row. join '','' (map fmt (snd row))) (body test_data)
       \<and> parse_csv parse (csv_text fmt train_data False False)
           = Some (map snd (body train_data))
       \<and> parse_csv parse (csv_text fmt validation_data False False)
           = Some (map snd (body validation_data))
       \<and> parse_csv parse (csv_text fmt test_data False False)
           = Some (map snd (body test_data))"
proof -
  have part: "list_all (list_all (cell_ok fmt parse)) (map snd (body p))"
    if "set (body p) \<subseteq> set (body df)" for p :: "float64 frame"
    using cells that by (auto simp: list_all_iff)
  note sub = split_data_subset [OF s]
  note tr = part [OF sub(1)] and va = part [OF sub(2)] and te = part [OF sub(3)]
  from u have w': "w' = w\<lparr>files := (files w)(''train.csv'' \<mapsto> csv_text fmt train_data False False,
                              ''validation.csv'' \<mapsto> csv_text fmt validation_data False False),
            objects := (objects w)
              ((bucket env, ''DEMO-iris-hpo-xgboost/train/train.csv'')
                 \<mapsto> csv_text fmt train_data False False,
               (bucket env, ''DEMO-iris-hpo-xgboost/validation/validation.csv'')
                 \<mapsto> csv_text fmt validation_data False False)\<rparr>"
    by (simp add: save_and_upload_objects)
  have f: "files w' ''train.csv'' = Some (csv_text fmt train_data False False)"
    "files w' ''validation.csv'' = Some (csv_text fmt validation_data False False)"
    "objects w' (bucket env, ''DEMO-iris-hpo-xgboost/train/train.csv'')
       = Some (csv_text fmt train_data False False)"
    "objects w' (bucket env, ''DEMO-iris-hpo-xgboost/validation/validation.csv'')
       = Some (csv_text fmt validation_data False False)"
    by (simp_all add: w')
  show ?thesis
    using f csv_lines [OF tr] csv_lines [OF va] csv_lines [OF te]
      csv_round_trip [OF tr] csv_round_trip [OF va] csv_round_trip [OF te]
    by (intro conjI)
qed

lemma example_round_trip_run:
  "case data example_iris of
     Inl e \<Rightarrow> False
   | Inr df \<Rightarrow>
       list_all (list_all (cell_ok example_fmt example_parse)) (map snd (body df))
       \<and> (case split_data example_random df 0 of
            Inl e \<Rightarrow> False
          | Inr ((train_data, validation_data, test_data), g') \<Rightarrow>
              map snd (body validation_data) = [[7, 15 / 2, 3, 3 / 2, 2]]
              \<and> csv_text example_fmt validation_data False False
                  = ''7.0,7.5,3.0,1.5,2.0'' @ [CHR 0x0A])"
  by code_simp

theorem export_round_trips_witness:
  "\<exists>df train_data validation_data test_data g' w'.
     data example_iris = Inr df
   \<and> list_all (list_all (cell_ok example_fmt example_parse)) (map snd (body df))
   \<and> split_data example_random df 0 = Inr ((train_data, validation_data, test_data), g')
   \<and> save_and_upload example_fmt example_environment train_data validation_data empty_world
       = Inr w'
   \<and> files w' ''validation.csv'' = Some (''7.0,7.5,3.0,1.5,2.0'' @ [CHR 0x0A])
   \<and> parse_csv example_parse (''7.0,7.5,3.0,1.5,2.0'' @ [CHR 0x0A])
       = Some [[7, 15 / 2, 3, 3 / 2, 2]]
   \<and> files w' ''train.csv'' = Some (csv_text example_fmt train_data False False)
   \<and> parse_csv example_parse (csv_text example_fmt train_data False False)
       = Some (map snd (body train_data))
   \<and> parse_csv example_parse (csv_text example_fmt test_data False False)
       = Some (map snd (body test_data))"
proof -
  from example_round_trip_run obtain df train_data validation_data test_data g' where
    d: "data example_iris = Inr df"
    and h1: "list_all (list_all (cell_ok example_fmt example_parse)) (map snd (body df))"
    and h2: "split_data example_random df 0 = Inr ((train_data, validation_data, test_data), g')"
    and v: "map snd (body validation_data) = [[7, 15 / 2, 3, 3 / 2, 2]]"
      "csv_text example_fmt validation_data False False = ''7.0,7.5,3.0,1.5,2.0'' @ [CHR 0x0A]"
    by (auto split: sum.splits)
  obtain w' where
    h3: "save_and_upload example_fmt example_environment train_data validation_data empty_world
          = Inr w'"
    by (simp add: save_and_upload_objects)
  from export_round_trips [OF h1 h2 h3] v d h1 h2 h3 show ?thesis
    by (intro exI [of _ df] exI [of _ train_data] exI [of _ validation_data]
        exI [of _ test_data] exI [of _ g'] exI [of _ w']) simp
qed

text \<open>With a header line or an index column the text does not read back to the rows.\<close>

lemma header_or_index_breaks_round_trip:
  "parse_csv example_parse (csv_text example_fmt \<lparr>columns = [''a''], body = [(0, [1])]\<rparr> False False)
     = Some [[1]]"
  "parse_csv example_parse (csv_text example_fmt \<lparr>columns = [''a''], body = [(0, [1])]\<rparr> False True)
     = None"
  "parse_csv (\<lambda>s. Some 1) (csv_text example_fmt \<lparr>columns = [''a''], body = [(0, [1])]\<rparr> True False)
     = Some [[1, 1]]"
  by code_simp+

end
